theory Spec2Isabelle
  imports Complex_Main "HOL-Library.Char_ord" "HOL-Library.List_Lexorder" "HOL-Library.Product_Lexorder"
begin

section \<open>Python values, exceptions and the parameter dictionary\<close>

text \<open>
  The exceptions that the modelled parts of \<^verbatim>\<open>pipeline_singlenuclei.py\<close> can raise.
  \<^verbatim>\<open>KeyError\<close> carries its argument, \<^verbatim>\<open>ValueError\<close> the two strings
  interpolated into its message.
\<close>

datatype py_exception = NameError string | KeyError string | ValueError string string

text \<open>
  The scalar values a YAML parameter file yields. A finite float is given by the
  rational number it denotes (so \<^verbatim>\<open>0.0\<close> and \<^verbatim>\<open>-0.0\<close> are both
  \<^verbatim>\<open>PyFloat 0\<close>); \<^verbatim>\<open>PyInf\<close> holds the sign of an infinity.
\<close>

datatype py_value =
  PyInt int | PyBool bool | PyFloat rat | PyInf bool | PyNaN | PyStr string | PyNone

text \<open>
  \<^verbatim>\<open>v == n\<close> for an integer literal \<^verbatim>\<open>n\<close>, as Python evaluates it: numbers
  compare by value, \<^verbatim>\<open>bool\<close> is a subclass of \<^verbatim>\<open>int\<close> (so
  \<^verbatim>\<open>False == 0\<close> and \<^verbatim>\<open>True == 1\<close>), and an infinity, a NaN, a string and
  \<^verbatim>\<open>None\<close> equal no integer.
\<close>

fun py_eq_int :: "py_value \<Rightarrow> int \<Rightarrow> bool" where
  "py_eq_int (PyInt a) n = (a = n)"
| "py_eq_int (PyBool a) n = ((if a then 1 else 0) = n)"
| "py_eq_int (PyFloat x) n = (x = of_int n)"
| "py_eq_int _ n = False"

text \<open>
  \<^verbatim>\<open>PARAMS[k]\<close>. \<^verbatim>\<open>PARAMS\<close> is the object \<^verbatim>\<open>P.get_parameters\<close> returns
  (line 105), the parameter dictionary of \<^verbatim>\<open>cgatcore\<close>, a library outside this
  repository: a \<^verbatim>\<open>defaultdict\<close> whose factory looks at one flag. When the pipeline
  module is imported the flag \<^verbatim>\<open>with_default\<close> is set, and subscripting a missing
  key stores and returns the empty string; when the module runs as a script the flag
  is not set, and the factory raises \<^verbatim>\<open>KeyError("missing parameter accessed")\<close>.
  The result is the outcome of the subscription and the dictionary after it.
\<close>

definition getitem ::
  "bool \<Rightarrow> (string \<rightharpoonup> py_value) \<Rightarrow> string
     \<Rightarrow> (py_exception + py_value) \<times> (string \<rightharpoonup> py_value)" where
  "getitem with_default d k =
     (case d k of
        Some v \<Rightarrow> (Inr v, d)
      | None \<Rightarrow>
          if with_default then (Inr (PyStr ''''), d(k \<mapsto> PyStr ''''))
          else (Inl (KeyError ''missing parameter accessed''), d))"

section \<open>The location of the input files (lines 110--122)\<close>

text \<open>
  \<^verbatim>\<open>
  try:
      PARAMS['data']
  except NameError:
      DATADIR = "."
  else:
      if PARAMS['data'] == 0:
          DATADIR = "."
      elif PARAMS['data'] == 1:
          DATADIR = "data.dir"
      else:
          DATADIR = PARAMS['data']
  \<close>
  The result is the value bound to \<^verbatim>\<open>DATADIR\<close>, or the exception that leaves the
  statement, and the parameter dictionary afterwards. The \<^verbatim>\<open>except\<close> clause
  catches \<^verbatim>\<open>NameError\<close> only; every other exception of the \<^verbatim>\<open>try\<close> body
  propagates. Each \<^verbatim>\<open>PARAMS['data']\<close> is a subscription of its own, on the
  dictionary the one before it left.
\<close>

definition DATADIR ::
  "bool \<Rightarrow> (string \<rightharpoonup> py_value) \<Rightarrow> (py_exception + py_value) \<times> (string \<rightharpoonup> py_value)" where
  "DATADIR with_default PARAMS =
     (case getitem with_default PARAMS ''data'' of
        (Inl (NameError n), P1) \<Rightarrow> (Inr (PyStr ''.''), P1)
      | (Inl e, P1) \<Rightarrow> (Inl e, P1)
      | (Inr _, P1) \<Rightarrow>
          (case getitem with_default P1 ''data'' of
             (Inl e, P2) \<Rightarrow> (Inl e, P2)
           | (Inr v0, P2) \<Rightarrow>
               if py_eq_int v0 0 then (Inr (PyStr ''.''), P2)
               else (case getitem with_default P2 ''data'' of
                       (Inl e, P3) \<Rightarrow> (Inl e, P3)
                     | (Inr v1, P3) \<Rightarrow>
                         if py_eq_int v1 1 then (Inr (PyStr ''data.dir''), P3)
                         else getitem with_default P3 ''data'')))"

section \<open>The transcript to gene map (lines 411--448)\<close>

text \<open>
  Of a GTF entry the function reads the attributes \<^verbatim>\<open>transcript_id\<close> and
  \<^verbatim>\<open>gene_id\<close> only. A geneset is the list of entries its iterator yields. The
  entries are those of a geneset in which every entry carries both attributes as
  strings (quoted identifiers); what \<^verbatim>\<open>cgat.GTF\<close>, a library outside this
  repository, does for an entry without an identifier or with an unquoted number is
  not part of the model.
\<close>

record gtf_entry =
  transcript_id :: string
  gene_id :: string

text \<open>
  The loop over a geneset, on the dictionary \<^verbatim>\<open>transcript2gene_dict\<close>. A Python
  dictionary keeps its keys in insertion order, so it is an association list that
  grows at its end; \<^verbatim>\<open>map_of\<close> is the lookup.
  \<^verbatim>\<open>
  for entry in iterator:
      if entry.transcript_id in transcript2gene_dict:
          if not entry.gene_id == transcript2gene_dict[entry.transcript_id]:
              raise ValueError(... % (entry.gene_id,
                                      transcript2gene_dict[entry.transcript_id]))
      else:
          transcript2gene_dict[entry.transcript_id] = entry.gene_id
  \<close>
\<close>

fun collect_entries ::
  "gtf_entry list \<Rightarrow> (string \<times> string) list \<Rightarrow> py_exception + (string \<times> string) list" where
  "collect_entries [] transcript2gene_dict = Inr transcript2gene_dict"
| "collect_entries (entry # iterator) transcript2gene_dict =
     (case map_of transcript2gene_dict (transcript_id entry) of
        Some g \<Rightarrow>
          if \<not> (gene_id entry = g) then Inl (ValueError (gene_id entry) g)
          else collect_entries iterator transcript2gene_dict
      | None \<Rightarrow>
          collect_entries iterator
            (transcript2gene_dict @ [(transcript_id entry, gene_id entry)]))"

text \<open>The first write, \<^verbatim>\<open>outf.write("transcript_id\tgene_id\n")\<close>.\<close>

definition header_line :: string where
  "header_line = ''transcript_id'' @ [CHR 0x09] @ ''gene_id'' @ [CHR 0x0A]"

text \<open>The write of one item, \<^verbatim>\<open>outf.write("%s\t%s\n" % (key, value))\<close>.\<close>

definition map_line :: "string \<times> string \<Rightarrow> string" where
  "map_line = (\<lambda>(key, val). key @ [CHR 0x09] @ val @ [CHR 0x0A])"

text \<open>
  The writes to the output file, one list element per call of \<^verbatim>\<open>outf.write\<close>.
  \<^verbatim>\<open>sorted\<close> on the items compares the (key, value) tuples lexicographically and
  strings character by character; on UTF-8 bytes that is the order of the code points.
\<close>

definition write_outfile :: "(string \<times> string) list \<Rightarrow> string list" where
  "write_outfile transcript2gene_dict = header_line # map map_line (sort transcript2gene_dict)"

text \<open>
  The whole function: the first loop over \<^verbatim>\<open>PARAMS['geneset']\<close>, the second over
  \<^verbatim>\<open>PARAMS['geneset2']\<close> when \<^verbatim>\<open>PARAMS['mixed_species']\<close> is set, on the same
  dictionary, then the output. The file is opened only after both loops, so a run
  that raises writes nothing.
\<close>

definition getTranscript2GeneMap ::
  "bool \<Rightarrow> gtf_entry list \<Rightarrow> gtf_entry list \<Rightarrow> py_exception + string list" where
  "getTranscript2GeneMap mixed_species geneset geneset2 =
     (case collect_entries geneset [] of
        Inl e \<Rightarrow> Inl e
      | Inr d \<Rightarrow>
          (case (if mixed_species then collect_entries geneset2 d else Inr d) of
             Inl e \<Rightarrow> Inl e
           | Inr d' \<Rightarrow> Inr (write_outfile d')))"

text \<open>The entries the function iterates over, in order.\<close>

definition entries_read :: "bool \<Rightarrow> gtf_entry list \<Rightarrow> gtf_entry list \<Rightarrow> gtf_entry list" where
  "entries_read mixed_species geneset geneset2 =
     geneset @ (if mixed_species then geneset2 else [])"

text \<open>Some transcript_id is associated with two distinct gene_ids.\<close>

definition conflicting :: "gtf_entry list \<Rightarrow> bool" where
  "conflicting es =
     (\<exists>a \<in> set es. \<exists>b \<in> set es. transcript_id a = transcript_id b \<and> gene_id a \<noteq> gene_id b)"

text \<open>The set of (transcript_id, gene_id) pairs of a list of entries.\<close>

definition pairs_of :: "gtf_entry list \<Rightarrow> (string \<times> string) set" where
  "pairs_of es = (\<lambda>e. (transcript_id e, gene_id e)) ` set es"

section \<open>The quantification core run by \<^verbatim>\<open>busCount\<close>\<close>

text \<open>
  \<^verbatim>\<open>busCount\<close> (lines 604--627) only builds the command line of
  \<^verbatim>\<open>bus2count.py\<close>, a script of this repository that is not among the sources.
  The definitions of this section model its Resolver, Barcode Corrector and
  Deduplication and Aggregation Engine from the specification (sections 3, 4.2, 4.3,
  4.4 and 6). The Record Stream Reader, the Cell Caller and the Matrix Assembler
  are not modelled.
\<close>

text \<open>
  Modelled from the spec: the \<^verbatim>\<open>Record\<close> that \<^verbatim>\<open>bus2count.py\<close> parses, with the
  fields \<^verbatim>\<open>{barcode, umi, equivalence_class, multiplicity}\<close> of section 3.
\<close>

record Record =
  barcode :: string
  umi :: string
  equivalence_class :: nat
  multiplicity :: nat

text \<open>
  Modelled from the spec: the \<^verbatim>\<open>multi_gene_policy\<close> option of \<^verbatim>\<open>bus2count.py\<close>,
  \<^verbatim>\<open>enum{discard, fractional_split}\<close> (section 6).
\<close>

datatype multi_gene_policy = discard | fractional_split

text \<open>
  Modelled from the spec: the configuration of \<^verbatim>\<open>bus2count.py\<close> (section 6). The
  multiplier is a float there; here it is an exact rational.
\<close>

record Configuration =
  expected_cell_count :: "nat option"
  barcode_correction_multiplier :: rat
  multi_gene_policy :: multi_gene_policy
  thread_count :: nat

text \<open>
  Modelled from the spec: the default of \<^verbatim>\<open>barcode_correction_multiplier\<close> in
  \<^verbatim>\<open>bus2count.py\<close>, 10.0.
\<close>

definition default_multiplier :: rat where
  "default_multiplier = 10"

subsection \<open>Equivalence-Class Resolver (section 4.2)\<close>

text \<open>
  Modelled from the spec: the resolved tuple of the Resolver of \<^verbatim>\<open>bus2count.py\<close>.
  It is the record together with the gene set of its equivalence class: one gene
  when the class is unambiguous, several when the record is held pending UMI-level
  resolution. The multiplicity stays with the tuple, since the Corrector, the next
  stage of the data flow, needs the read counts.
\<close>

record Resolved = Record +
  genes :: "string list"

text \<open>
  Modelled from the spec: the Resolver of \<^verbatim>\<open>bus2count.py\<close>. It looks the class up in
  the EquivalenceClass to GeneSet map; an unknown class rejects the record
  (\<^verbatim>\<open>None\<close>).
\<close>

definition resolve :: "(nat \<rightharpoonup> string list) \<Rightarrow> Record \<Rightarrow> Resolved option" where
  "resolve class_genes r =
     (case class_genes (equivalence_class r) of
        None \<Rightarrow> None
      | Some gs \<Rightarrow>
          Some \<lparr>barcode = barcode r, umi = umi r, equivalence_class = equivalence_class r,
                multiplicity = multiplicity r, genes = gs\<rparr>)"

subsection \<open>Barcode Corrector (section 4.3)\<close>

text \<open>
  Modelled from the spec: the first input of the Corrector of \<^verbatim>\<open>bus2count.py\<close>, "the
  set of distinct observed barcodes", here those of the tuples that reach it.
\<close>

definition observed_barcodes :: "Resolved list \<Rightarrow> string list" where
  "observed_barcodes ts = remdups (map barcode ts)"

text \<open>
  Modelled from the spec: the second input of the Corrector of \<^verbatim>\<open>bus2count.py\<close>, the
  barcodes' "total supporting multiplicities (read counts, not yet UMI-deduplicated)".
\<close>

definition total_multiplicity :: "Resolved list \<Rightarrow> string \<Rightarrow> nat" where
  "total_multiplicity ts b = sum_list (map multiplicity (filter (\<lambda>t. barcode t = b) ts))"

text \<open>
  Modelled from the spec: "all single-substitution variants over the alphabet" of a
  barcode, as the Corrector of \<^verbatim>\<open>bus2count.py\<close> generates them. The alphabet belongs
  to the barcode geometry, which is supplied from outside; it is a parameter.
\<close>

definition substitutions :: "string \<Rightarrow> string \<Rightarrow> string list" where
  "substitutions alphabet b =
     concat (map (\<lambda>i. map (\<lambda>c. b[i := c]) (filter (\<lambda>c. c \<noteq> b ! i) alphabet)) [0..<length b])"

text \<open>
  Modelled from the spec: the merge rule of the Corrector of \<^verbatim>\<open>bus2count.py\<close>. A
  variant qualifies when it is among the observed barcodes and its total multiplicity is
  at least the multiplier times that of the barcode at hand. The barcode at hand is "the
  lower-count barcode" and the variant "the higher", and "ties ... are left
  uncorrected", so the variant's total is also strictly the greater one.
\<close>

definition dominating_variants :: "rat \<Rightarrow> string \<Rightarrow> Resolved list \<Rightarrow> string \<Rightarrow> string list" where
  "dominating_variants m alphabet ts b =
     filter (\<lambda>v. v \<in> set (observed_barcodes ts)
                \<and> total_multiplicity ts b < total_multiplicity ts v
                \<and> m * of_nat (total_multiplicity ts b) \<le> of_nat (total_multiplicity ts v))
       (substitutions alphabet b)"

text \<open>
  Modelled from the spec: "each barcode merges into at most one canonical form" in the
  Corrector of \<^verbatim>\<open>bus2count.py\<close>. The specification does not say which of several
  qualifying variants is taken; the model takes one of greatest total multiplicity (the
  first generated among equals).
\<close>

fun best_supported :: "(string \<Rightarrow> nat) \<Rightarrow> string \<Rightarrow> string list \<Rightarrow> string" where
  "best_supported support v [] = v"
| "best_supported support v (w # ws) =
     best_supported support (if support v < support w then w else v) ws"

text \<open>
  Modelled from the spec: the mapping "from every observed barcode to a canonical
  barcode" that the Corrector of \<^verbatim>\<open>bus2count.py\<close> produces. The rule is applied
  once, not iterated to a fixed point.
\<close>

definition canonical :: "rat \<Rightarrow> string \<Rightarrow> Resolved list \<Rightarrow> string \<Rightarrow> string" where
  "canonical m alphabet ts b =
     (case dominating_variants m alphabet ts b of
        [] \<Rightarrow> b
      | v # vs \<Rightarrow> best_supported (total_multiplicity ts) v vs)"

subsection \<open>UMI Deduplication and Aggregation Engine (section 4.4)\<close>

text \<open>
  Modelled from the spec: the grouping of the tuples "by (canonical barcode, UMI)" in
  the Deduplication Engine of \<^verbatim>\<open>bus2count.py\<close>; a group is named by its key.
\<close>

definition group_keys :: "Resolved list \<Rightarrow> (string \<times> string) list" where
  "group_keys ts = remdups (map (\<lambda>t. (barcode t, umi t)) ts)"

text \<open>
  Modelled from the spec: the "resolved gene-sets across records sharing that
  (barcode, UMI)", which the Deduplication Engine of \<^verbatim>\<open>bus2count.py\<close> intersects.
\<close>

definition group_gene_sets :: "Resolved list \<Rightarrow> string \<times> string \<Rightarrow> string list list" where
  "group_gene_sets ts k = map genes (filter (\<lambda>t. (barcode t, umi t) = k) ts)"

text \<open>
  Modelled from the spec: the intersection of "all resolved gene-sets across records
  sharing that (barcode, UMI)" in the Deduplication Engine of \<^verbatim>\<open>bus2count.py\<close>.
\<close>

fun intersect_all :: "string list list \<Rightarrow> string list" where
  "intersect_all [] = []"
| "intersect_all (gs # gss) = fold (\<lambda>hs acc. filter (\<lambda>g. g \<in> set hs) acc) gss (remdups gs)"

text \<open>
  Modelled from the spec: the three ends of a group in the Deduplication Engine of
  \<^verbatim>\<open>bus2count.py\<close>; it is counted toward genes, dropped as ambiguous, or discarded
  by the multi-gene policy.
\<close>

datatype group_outcome =
  counted "(string \<times> rat) list" | dropped_ambiguous | discarded_multi_gene

text \<open>
  Modelled from the spec: what the Deduplication Engine of \<^verbatim>\<open>bus2count.py\<close> decides
  from the intersection of one group. A single gene counts once; an empty intersection
  drops the group under \<^verbatim>\<open>dropped_ambiguous_umi\<close>; several genes follow the
  configured policy, which either discards the group or splits one count equally over
  the candidate genes.
\<close>

definition resolve_group :: "multi_gene_policy \<Rightarrow> string list \<Rightarrow> group_outcome" where
  "resolve_group policy gs =
     (case gs of
        [] \<Rightarrow> dropped_ambiguous
      | [g] \<Rightarrow> counted [(g, 1)]
      | _ \<Rightarrow>
          (case policy of
             discard \<Rightarrow> discarded_multi_gene
           | fractional_split \<Rightarrow> counted (map (\<lambda>g. (g, 1 / of_nat (length gs))) gs)))"

text \<open>
  Modelled from the spec: the running aggregate "(Barcode, Gene) to Count" of
  \<^verbatim>\<open>bus2count.py\<close>, together with its metric of the dropped groups.
\<close>

record Aggregation =
  counts :: "string \<times> string \<rightharpoonup> rat"
  dropped_ambiguous_umi :: nat

text \<open>
  Modelled from the spec: one contribution of a group to the running aggregate of
  \<^verbatim>\<open>bus2count.py\<close>, added to the count of (barcode, gene).
\<close>

definition add_count :: "string \<Rightarrow> string \<times> rat \<Rightarrow> (string \<times> string \<rightharpoonup> rat) \<Rightarrow> (string \<times> string \<rightharpoonup> rat)" where
  "add_count b = (\<lambda>(g, w) agg.
     agg((b, g) \<mapsto> (case agg (b, g) of None \<Rightarrow> w | Some c \<Rightarrow> c + w)))"

text \<open>
  Modelled from the spec: the step of the Deduplication Engine of \<^verbatim>\<open>bus2count.py\<close>
  for the group of key \<^verbatim>\<open>k\<close>; it counts the group, tallies it as dropped, or
  discards it.
\<close>

definition aggregate_group ::
  "multi_gene_policy \<Rightarrow> Resolved list \<Rightarrow> string \<times> string \<Rightarrow> Aggregation \<Rightarrow> Aggregation" where
  "aggregate_group policy ts k st =
     (case resolve_group policy (intersect_all (group_gene_sets ts k)) of
        dropped_ambiguous \<Rightarrow> st\<lparr>dropped_ambiguous_umi := dropped_ambiguous_umi st + 1\<rparr>
      | discarded_multi_gene \<Rightarrow> st
      | counted cs \<Rightarrow> st\<lparr>counts := fold (add_count (fst k)) cs (counts st)\<rparr>)"

text \<open>
  Modelled from the spec: the Deduplication and Aggregation Engine of
  \<^verbatim>\<open>bus2count.py\<close>, one step per group, from the empty aggregate.
\<close>

definition aggregate :: "multi_gene_policy \<Rightarrow> Resolved list \<Rightarrow> Aggregation" where
  "aggregate policy ts =
     fold (aggregate_group policy ts) (group_keys ts)
       \<lparr>counts = Map.empty, dropped_ambiguous_umi = 0\<rparr>"

subsection \<open>The pass from the records to the aggregate\<close>

text \<open>
  Modelled from the spec: the output of the Resolver stage of \<^verbatim>\<open>bus2count.py\<close> over
  the whole stream, the tuples of the records it does not reject.
\<close>

definition resolved_tuples :: "(nat \<rightharpoonup> string list) \<Rightarrow> Record list \<Rightarrow> Resolved list" where
  "resolved_tuples class_genes records = List.map_filter (resolve class_genes) records"

text \<open>
  Modelled from the spec: the metric \<^verbatim>\<open>dropped_unmapped_class\<close> of
  \<^verbatim>\<open>bus2count.py\<close>, the number of records the Resolver rejects.
\<close>

definition dropped_unmapped_class :: "(nat \<rightharpoonup> string list) \<Rightarrow> Record list \<Rightarrow> nat" where
  "dropped_unmapped_class class_genes records =
     length (filter (\<lambda>r. resolve class_genes r = None) records)"

text \<open>
  Modelled from the spec: the barcode-correction map of \<^verbatim>\<open>bus2count.py\<close>, built once
  from all the tuples with the configured multiplier.
\<close>

definition correction_map :: "Configuration \<Rightarrow> string \<Rightarrow> Resolved list \<Rightarrow> string \<Rightarrow> string" where
  "correction_map cfg alphabet ts = canonical (barcode_correction_multiplier cfg) alphabet ts"

text \<open>
  Modelled from the spec: the re-labelling of a tuple of \<^verbatim>\<open>bus2count.py\<close> to its
  canonical barcode, "the lower barcode is re-labelled to the higher one in downstream
  aggregation".
\<close>

definition relabel :: "(string \<Rightarrow> string) \<Rightarrow> Resolved \<Rightarrow> Resolved" where
  "relabel canon t = t\<lparr>barcode := canon (barcode t)\<rparr>"

text \<open>
  Modelled from the spec: the forward pass of \<^verbatim>\<open>bus2count.py\<close> up to its buffering
  point, Resolver, then Corrector, then Deduplication and Aggregation.
\<close>

definition quantify ::
  "Configuration \<Rightarrow> string \<Rightarrow> (nat \<rightharpoonup> string list) \<Rightarrow> Record list \<Rightarrow> Aggregation" where
  "quantify cfg alphabet class_genes records =
     (let ts = resolved_tuples class_genes records;
          canon = correction_map cfg alphabet ts
      in aggregate (multi_gene_policy cfg) (map (relabel canon) ts))"

subsection \<open>The scenario of section 8\<close>

text \<open>
  Modelled from the spec: the records of the four-record scenario for
  \<^verbatim>\<open>bus2count.py\<close>, (AAA, U1, class0, 1), (AAA, U1, class0, 1), (AAA, U2, class0, 1)
  and (AAT, U3, class0, 1).
\<close>

definition scenario_records :: "Record list" where
  "scenario_records =
     [\<lparr>barcode = ''AAA'', umi = ''U1'', equivalence_class = 0, multiplicity = 1\<rparr>,
      \<lparr>barcode = ''AAA'', umi = ''U1'', equivalence_class = 0, multiplicity = 1\<rparr>,
      \<lparr>barcode = ''AAA'', umi = ''U2'', equivalence_class = 0, multiplicity = 1\<rparr>,
      \<lparr>barcode = ''AAT'', umi = ''U3'', equivalence_class = 0, multiplicity = 1\<rparr>]"

text \<open>
  Modelled from the spec: the EquivalenceClass to GeneSet map of the scenario for
  \<^verbatim>\<open>bus2count.py\<close>, class0 mapped to {geneX}.
\<close>

definition scenario_class_genes :: "nat \<rightharpoonup> string list" where
  "scenario_class_genes = [0 \<mapsto> [''geneX'']]"


section \<open>Properties of the DATADIR selection\<close>

lemma getitem_never_NameError: "fst (getitem wd d k) \<noteq> Inl (NameError n)"
  by (simp add: getitem_def split: option.splits)

lemma DATADIR_present:
  assumes "PARAMS ''data'' = Some v"
  shows "DATADIR wd PARAMS =
     (Inr (if py_eq_int v 0 then PyStr ''.''
           else if py_eq_int v 1 then PyStr ''data.dir'' else v),
      PARAMS)"
  using assms by (simp add: DATADIR_def getitem_def)

lemma DATADIR_missing_script:
  assumes "PARAMS ''data'' = None"
  shows "DATADIR False PARAMS = (Inl (KeyError ''missing parameter accessed''), PARAMS)"
  using assms by (simp add: DATADIR_def getitem_def)

text \<open>
  On import the first subscription stores the empty string under \<^verbatim>\<open>data\<close>; the
  three subscriptions of the \<^verbatim>\<open>else\<close> block then find it, and it equals neither
  0 nor 1.
\<close>

lemma DATADIR_missing_import:
  assumes "PARAMS ''data'' = None"
  shows "DATADIR True PARAMS = (Inr (PyStr ''''), PARAMS(''data'' \<mapsto> PyStr ''''))"
  using assms by (simp add: DATADIR_def getitem_def)

text \<open>
  Claim C10, as stated, fails: with no key \<^verbatim>\<open>data\<close> and the pipeline module
  imported, the statement raises no \<^verbatim>\<open>KeyError\<close>; it binds \<^verbatim>\<open>DATADIR\<close> to
  the empty string.
\<close>

theorem DATADIR_missing_key_counterexample:
  "(Map.empty :: string \<rightharpoonup> py_value) ''data'' = None
   \<and> fst (DATADIR True Map.empty) = Inr (PyStr '''')"
  by (simp add: DATADIR_def getitem_def)

text \<open>
  Claim C10, amended. The selection maps a value of \<^verbatim>\<open>data\<close> that equals 0 (by
  Python's \<^verbatim>\<open>==\<close>) to \<^verbatim>\<open>"."\<close>, one that equals 1 to \<^verbatim>\<open>"data.dir"\<close>, and every
  other value to itself, and leaves the dictionary as it was. The \<^verbatim>\<open>NameError\<close>
  handler is never entered, since the subscription raises no \<^verbatim>\<open>NameError\<close>. With
  no key \<^verbatim>\<open>data\<close>, the statement raises \<^verbatim>\<open>KeyError\<close> when the pipeline runs as
  a script, and binds \<^verbatim>\<open>DATADIR\<close> to the dictionary's default, the empty string,
  when the module is imported; in neither case is \<^verbatim>\<open>DATADIR\<close> defaulted to
  \<^verbatim>\<open>"."\<close>.
\<close>

theorem DATADIR_selection:
  "(PARAMS ''data'' = Some v \<and> py_eq_int v 0 \<longrightarrow>
      DATADIR wd PARAMS = (Inr (PyStr ''.''), PARAMS))
   \<and> (PARAMS ''data'' = Some v \<and> \<not> py_eq_int v 0 \<and> py_eq_int v 1 \<longrightarrow>
      DATADIR wd PARAMS = (Inr (PyStr ''data.dir''), PARAMS))
   \<and> (PARAMS ''data'' = Some v \<and> \<not> py_eq_int v 0 \<and> \<not> py_eq_int v 1 \<longrightarrow>
      DATADIR wd PARAMS = (Inr v, PARAMS))
   \<and> (\<forall>n. fst (getitem wd PARAMS ''data'') \<noteq> Inl (NameError n))
   \<and> (PARAMS ''data'' = None \<longrightarrow>
      DATADIR False PARAMS = (Inl (KeyError ''missing parameter accessed''), PARAMS)
      \<and> DATADIR True PARAMS = (Inr (PyStr ''''), PARAMS(''data'' \<mapsto> PyStr ''''))
      \<and> fst (DATADIR wd PARAMS) \<noteq> Inr (PyStr ''.''))"
proof (intro conjI impI allI)
  show "fst (getitem wd PARAMS ''data'') \<noteq> Inl (NameError n)" for n
    by (rule getitem_never_NameError)
next
  assume a: "PARAMS ''data'' = None"
  show "DATADIR False PARAMS = (Inl (KeyError ''missing parameter accessed''), PARAMS)"
    using a by (simp add: DATADIR_missing_script)
  show "DATADIR True PARAMS = (Inr (PyStr ''''), PARAMS(''data'' \<mapsto> PyStr ''''))"
    using a by (simp add: DATADIR_missing_import)
  show "fst (DATADIR wd PARAMS) \<noteq> Inr (PyStr ''.'')"
    using a by (cases wd) (simp_all add: DATADIR_missing_script DATADIR_missing_import)
qed (simp_all add: DATADIR_present)

text \<open>
  The theorem at \<^verbatim>\<open>data: 0\<close>, \<^verbatim>\<open>data: 0.0\<close>, \<^verbatim>\<open>data: true\<close>, a directory
  name, and at a dictionary without the key, run as a script and imported.
\<close>

theorem DATADIR_selection_witness:
  "DATADIR True [''data'' \<mapsto> PyInt 0] = (Inr (PyStr ''.''), [''data'' \<mapsto> PyInt 0])
   \<and> DATADIR False [''data'' \<mapsto> PyFloat 0] = (Inr (PyStr ''.''), [''data'' \<mapsto> PyFloat 0])
   \<and> DATADIR False [''data'' \<mapsto> PyBool True]
       = (Inr (PyStr ''data.dir''), [''data'' \<mapsto> PyBool True])
   \<and> DATADIR False [''data'' \<mapsto> PyStr ''fastq.dir'']
       = (Inr (PyStr ''fastq.dir''), [''data'' \<mapsto> PyStr ''fastq.dir''])
   \<and> DATADIR False Map.empty = (Inl (KeyError ''missing parameter accessed''), Map.empty)
   \<and> DATADIR True Map.empty = (Inr (PyStr ''''), [''data'' \<mapsto> PyStr ''''])"
proof -
  have p0: "[''data'' \<mapsto> PyInt 0] ''data'' = Some (PyInt 0) \<and> py_eq_int (PyInt 0) 0"
    by simp
  have p1: "[''data'' \<mapsto> PyFloat 0] ''data'' = Some (PyFloat 0) \<and> py_eq_int (PyFloat 0) 0"
    by simp
  have p2: "[''data'' \<mapsto> PyBool True] ''data'' = Some (PyBool True)
      \<and> \<not> py_eq_int (PyBool True) 0 \<and> py_eq_int (PyBool True) 1"
    by simp
  have p3: "[''data'' \<mapsto> PyStr ''fastq.dir''] ''data'' = Some (PyStr ''fastq.dir'')
      \<and> \<not> py_eq_int (PyStr ''fastq.dir'') 0 \<and> \<not> py_eq_int (PyStr ''fastq.dir'') 1"
    by simp
  have p4: "(Map.empty :: string \<rightharpoonup> py_value) ''data'' = None"
    by simp
  note a = DATADIR_selection[of "[''data'' \<mapsto> PyInt 0]" "PyInt 0" True,
      THEN conjunct1, THEN mp, OF p0]
  note b = DATADIR_selection[of "[''data'' \<mapsto> PyFloat 0]" "PyFloat 0" False,
      THEN conjunct1, THEN mp, OF p1]
  note c = DATADIR_selection[of "[''data'' \<mapsto> PyBool True]" "PyBool True" False,
      THEN conjunct2, THEN conjunct1, THEN mp, OF p2]
  note d = DATADIR_selection[of "[''data'' \<mapsto> PyStr ''fastq.dir'']" "PyStr ''fastq.dir''" False,
      THEN conjunct2, THEN conjunct2, THEN conjunct1, THEN mp, OF p3]
  note e = DATADIR_selection[of Map.empty _ True,
      THEN conjunct2, THEN conjunct2, THEN conjunct2, THEN conjunct2, THEN mp, OF p4]
  show ?thesis
    by (intro conjI a b c d e[THEN conjunct1] e[THEN conjunct2, THEN conjunct1])
qed

section \<open>Properties of getTranscript2GeneMap\<close>

subsection \<open>The loop and the dictionary\<close>

lemma collect_entries_append:
  "collect_entries (xs @ ys) d =
     (case collect_entries xs d of Inl e \<Rightarrow> Inl e | Inr d' \<Rightarrow> collect_entries ys d')"
  by (induction xs arbitrary: d) (auto split: option.splits)

lemma pairs_of_Cons: "pairs_of (e # es) = insert (transcript_id e, gene_id e) (pairs_of es)"
  by (simp add: pairs_of_def)

text \<open>
  The loop invariant: the dictionary has one item per key, and the loop raises exactly
  when the items so far and the pairs still to come do not form a function.
\<close>

lemma collect_entries_spec:
  "distinct (map fst d) \<Longrightarrow>
     (case collect_entries es d of
        Inl e \<Rightarrow> \<not> single_valued (set d \<union> pairs_of es) \<and> (\<exists>a b. e = ValueError a b)
      | Inr d' \<Rightarrow> single_valued (set d \<union> pairs_of es) \<and> distinct (map fst d')
                 \<and> set d' = set d \<union> pairs_of es)"
proof (induction es arbitrary: d)
  case Nil
  have "single_valued (set d)"
    unfolding single_valued_def using eq_key_imp_eq_value[OF Nil] by blast
  with Nil show ?case
    by (simp add: pairs_of_def)
next
  case (Cons e es)
  show ?case
  proof (cases "map_of d (transcript_id e)")
    case None
    let ?d = "d @ [(transcript_id e, gene_id e)]"
    from None have notin: "transcript_id e \<notin> fst ` set d"
      by (simp add: map_of_eq_None_iff)
    with Cons.prems have dist: "distinct (map fst ?d)" by simp
    from Cons.IH[OF dist] None show ?thesis
      by (simp add: pairs_of_Cons split: sum.splits)
  next
    case (Some g)
    then have mem: "(transcript_id e, g) \<in> set d" by (rule map_of_SomeD)
    show ?thesis
    proof (cases "gene_id e = g")
      case True
      with mem have eq: "insert (transcript_id e, g) (set d \<union> pairs_of es) = set d \<union> pairs_of es"
        by auto
      from Cons.IH[OF Cons.prems] Some True show ?thesis
        by (simp add: pairs_of_Cons eq split: sum.splits)
    next
      case False
      have "\<not> single_valued (set d \<union> pairs_of (e # es))"
      proof
        assume sv: "single_valued (set d \<union> pairs_of (e # es))"
        have "(transcript_id e, g) \<in> set d \<union> pairs_of (e # es)" using mem by simp
        moreover have "(transcript_id e, gene_id e) \<in> set d \<union> pairs_of (e # es)"
          by (simp add: pairs_of_Cons)
        ultimately have "g = gene_id e" using sv by (rule single_valuedD[rotated])
        with False show False by simp
      qed
      with Some False show ?thesis by simp
    qed
  qed
qed

lemma conflicting_iff: "conflicting es \<longleftrightarrow> \<not> single_valued (pairs_of es)"
proof
  assume "conflicting es"
  then obtain a b where ab: "a \<in> set es" "b \<in> set es"
    "transcript_id a = transcript_id b" "gene_id a \<noteq> gene_id b"
    unfolding conflicting_def by blast
  have "(transcript_id a, gene_id a) \<in> pairs_of es"
    unfolding pairs_of_def using ab(1) by (rule imageI)
  moreover have "(transcript_id b, gene_id b) \<in> pairs_of es"
    unfolding pairs_of_def using ab(2) by (rule imageI)
  ultimately have "(transcript_id a, gene_id a) \<in> pairs_of es"
    "(transcript_id a, gene_id b) \<in> pairs_of es"
    using ab(3) by simp_all
  with ab(4) show "\<not> single_valued (pairs_of es)"
    unfolding single_valued_def by blast
next
  assume "\<not> single_valued (pairs_of es)"
  then obtain k v w where "(k, v) \<in> pairs_of es" "(k, w) \<in> pairs_of es" "v \<noteq> w"
    unfolding single_valued_def by blast
  then show "conflicting es"
    unfolding conflicting_def pairs_of_def by auto
qed

lemma getTranscript2GeneMap_unfold:
  "getTranscript2GeneMap m g1 g2 =
     (case collect_entries (entries_read m g1 g2) [] of
        Inl e \<Rightarrow> Inl e | Inr d \<Rightarrow> Inr (write_outfile d))"
  by (simp add: getTranscript2GeneMap_def entries_read_def collect_entries_append
      split: sum.splits)

text \<open>Both outcomes of the function, in terms of the entries it reads.\<close>

lemma getTranscript2GeneMap_cases:
  "(case getTranscript2GeneMap m g1 g2 of
      Inl e \<Rightarrow> conflicting (entries_read m g1 g2) \<and> (\<exists>a b. e = ValueError a b)
    | Inr out \<Rightarrow> \<not> conflicting (entries_read m g1 g2) \<and>
        (\<exists>d. out = write_outfile d \<and> distinct (map fst d)
              \<and> set d = pairs_of (entries_read m g1 g2)))"
  using collect_entries_spec[of "[]" "entries_read m g1 g2"]
  by (simp add: getTranscript2GeneMap_unfold conflicting_iff split: sum.splits) blast

subsection \<open>Sorting the items\<close>

lemma sorted_map_fst:
  fixes xs :: "('a::linorder \<times> 'b::linorder) list"
  shows "sorted xs \<Longrightarrow> sorted (map fst xs)"
  by (induction xs) (auto simp: less_eq_prod_def)

lemma sort_distinct_keys:
  fixes d :: "('a::linorder \<times> 'b::linorder) list"
  assumes "distinct (map fst d)"
  shows "sort d = sorted_list_of_set (set d) \<and> sorted_wrt (<) (map fst (sort d))"
proof -
  from assms have dd: "distinct d" and inj: "inj_on fst (set d)"
    by (simp_all add: distinct_map)
  have "distinct (map fst (sort d))"
    using dd inj by (simp add: distinct_map)
  moreover have "sorted (map fst (sort d))"
    by (rule sorted_map_fst) simp
  ultimately show ?thesis
    using dd
    by (simp add: sorted_list_of_set_sort_remdups strict_sorted_iff distinct_remdups_id)
qed

subsection \<open>The text of the file\<close>

text \<open>
  The writes, character by character: the header \<^verbatim>\<open>transcript_id<TAB>gene_id<LF>\<close>,
  then for each item of the sorted dictionary its key, a tab, its value and a line feed.
\<close>

lemma write_outfile_text:
  "write_outfile d =
     (''transcript_id'' @ [CHR 0x09] @ ''gene_id'' @ [CHR 0x0A])
       # map (\<lambda>(t, g). t @ [CHR 0x09] @ g @ [CHR 0x0A]) (sort d)"
  unfolding write_outfile_def header_line_def map_line_def by (rule refl)

subsection \<open>When the function raises\<close>

text \<open>
  Claim C8. \<^verbatim>\<open>getTranscript2GeneMap\<close> raises \<^verbatim>\<open>ValueError\<close> if and only if some
  transcript_id among the entries it reads (the geneset, and the second geneset too
  when \<^verbatim>\<open>mixed_species\<close> is set) comes with two distinct gene_ids. Without such a
  conflict it writes, after the header, exactly one line per transcript_id
  encountered, and for every entry read that line is the entry's transcript_id, a tab,
  the entry's gene_id and a line feed.
\<close>

theorem getTranscript2GeneMap_raises_iff_conflicting:
  "((\<exists>a b. getTranscript2GeneMap m g1 g2 = Inl (ValueError a b))
      \<longleftrightarrow> conflicting (entries_read m g1 g2))
   \<and> (\<not> conflicting (entries_read m g1 g2) \<longrightarrow>
        (\<exists>d. getTranscript2GeneMap m g1 g2 =
               Inr ((''transcript_id'' @ [CHR 0x09] @ ''gene_id'' @ [CHR 0x0A])
                    # map (\<lambda>(t, g). t @ [CHR 0x09] @ g @ [CHR 0x0A]) d)
            \<and> distinct (map fst d)
            \<and> fst ` set d = transcript_id ` set (entries_read m g1 g2)
            \<and> (\<forall>e \<in> set (entries_read m g1 g2).
                  map_of d (transcript_id e) = Some (gene_id e)
                  \<and> transcript_id e @ [CHR 0x09] @ gene_id e @ [CHR 0x0A]
                      \<in> set (map (\<lambda>(t, g). t @ [CHR 0x09] @ g @ [CHR 0x0A]) d))))"
proof (cases "getTranscript2GeneMap m g1 g2")
  case (Inl e)
  with getTranscript2GeneMap_cases[of m g1 g2] show ?thesis by auto
next
  case (Inr out)
  let ?fmt = "\<lambda>(t, g). t @ [CHR 0x09] @ g @ [CHR 0x0A]"
  from Inr getTranscript2GeneMap_cases[of m g1 g2]
  obtain d where nc: "\<not> conflicting (entries_read m g1 g2)"
    and out: "out = write_outfile d" and dist: "distinct (map fst d)"
    and set: "set d = pairs_of (entries_read m g1 g2)"
    by auto
  let ?d = "sort d"
  have 1: "getTranscript2GeneMap m g1 g2 =
      Inr ((''transcript_id'' @ [CHR 0x09] @ ''gene_id'' @ [CHR 0x0A]) # map ?fmt ?d)"
    unfolding Inr out write_outfile_text by (rule refl)
  from dist have dd: "distinct d" and inj: "inj_on fst (set d)"
    by (simp_all add: distinct_map)
  have 2: "distinct (map fst ?d)"
    using dd inj by (simp add: distinct_map)
  have 3: "fst ` set ?d = transcript_id ` set (entries_read m g1 g2)"
    by (simp add: set pairs_of_def image_image)
  have 4: "map_of ?d (transcript_id e) = Some (gene_id e)
      \<and> transcript_id e @ [CHR 0x09] @ gene_id e @ [CHR 0x0A] \<in> set (map ?fmt ?d)"
    if "e \<in> set (entries_read m g1 g2)" for e
  proof
    from that have mem: "(transcript_id e, gene_id e) \<in> set ?d"
      by (simp add: set pairs_of_def)
    with 2 show "map_of ?d (transcript_id e) = Some (gene_id e)"
      by (rule map_of_is_SomeI)
    have "?fmt (transcript_id e, gene_id e) \<in> ?fmt ` set ?d"
      using mem by (rule imageI)
    then show "transcript_id e @ [CHR 0x09] @ gene_id e @ [CHR 0x0A] \<in> set (map ?fmt ?d)"
      by simp
  qed
  have "\<exists>d. getTranscript2GeneMap m g1 g2 =
               Inr ((''transcript_id'' @ [CHR 0x09] @ ''gene_id'' @ [CHR 0x0A]) # map ?fmt d)
            \<and> distinct (map fst d)
            \<and> fst ` set d = transcript_id ` set (entries_read m g1 g2)
            \<and> (\<forall>e \<in> set (entries_read m g1 g2).
                  map_of d (transcript_id e) = Some (gene_id e)
                  \<and> transcript_id e @ [CHR 0x09] @ gene_id e @ [CHR 0x0A] \<in> set (map ?fmt d))"
    by (rule exI[of _ ?d]) (intro conjI ballI 1 2 3 4[THEN conjunct1] 4[THEN conjunct2])
  moreover have "\<not> (\<exists>a b. getTranscript2GeneMap m g1 g2 = Inl (ValueError a b))"
    using Inr by simp
  ultimately show ?thesis using nc by blast
qed

text \<open>
  The theorem at a conflict-free run over two genesets (three transcripts, one of them
  repeated), with the file it writes, and at a run whose second geneset gives T1
  another gene.
\<close>

theorem getTranscript2GeneMap_raises_iff_conflicting_witness:
  "\<not> conflicting (entries_read True
        [\<lparr>transcript_id = ''T2'', gene_id = ''G1''\<rparr>, \<lparr>transcript_id = ''T1'', gene_id = ''G1''\<rparr>]
        [\<lparr>transcript_id = ''T2'', gene_id = ''G1''\<rparr>, \<lparr>transcript_id = ''T3'', gene_id = ''G2''\<rparr>])
   \<and> (\<exists>d. getTranscript2GeneMap True
        [\<lparr>transcript_id = ''T2'', gene_id = ''G1''\<rparr>, \<lparr>transcript_id = ''T1'', gene_id = ''G1''\<rparr>]
        [\<lparr>transcript_id = ''T2'', gene_id = ''G1''\<rparr>, \<lparr>transcript_id = ''T3'', gene_id = ''G2''\<rparr>]
          = Inr ((''transcript_id'' @ [CHR 0x09] @ ''gene_id'' @ [CHR 0x0A])
                 # map (\<lambda>(t, g). t @ [CHR 0x09] @ g @ [CHR 0x0A]) d)
        \<and> distinct (map fst d)
        \<and> fst ` set d = {''T1'', ''T2'', ''T3''}
        \<and> map_of d ''T1'' = Some ''G1'' \<and> map_of d ''T2'' = Some ''G1''
        \<and> map_of d ''T3'' = Some ''G2''
        \<and> ''T3'' @ [CHR 0x09] @ ''G2'' @ [CHR 0x0A]
            \<in> set (map (\<lambda>(t, g). t @ [CHR 0x09] @ g @ [CHR 0x0A]) d))
   \<and> getTranscript2GeneMap True
        [\<lparr>transcript_id = ''T2'', gene_id = ''G1''\<rparr>, \<lparr>transcript_id = ''T1'', gene_id = ''G1''\<rparr>]
        [\<lparr>transcript_id = ''T2'', gene_id = ''G1''\<rparr>, \<lparr>transcript_id = ''T3'', gene_id = ''G2''\<rparr>]
       = Inr [''transcript_id'' @ [CHR 0x09] @ ''gene_id'' @ [CHR 0x0A],
              ''T1'' @ [CHR 0x09] @ ''G1'' @ [CHR 0x0A],
              ''T2'' @ [CHR 0x09] @ ''G1'' @ [CHR 0x0A],
              ''T3'' @ [CHR 0x09] @ ''G2'' @ [CHR 0x0A]]
   \<and> conflicting (entries_read True
        [\<lparr>transcript_id = ''T1'', gene_id = ''G1''\<rparr>] [\<lparr>transcript_id = ''T1'', gene_id = ''G2''\<rparr>])
   \<and> (\<exists>a b. getTranscript2GeneMap True
        [\<lparr>transcript_id = ''T1'', gene_id = ''G1''\<rparr>] [\<lparr>transcript_id = ''T1'', gene_id = ''G2''\<rparr>]
          = Inl (ValueError a b))"
proof -
  let ?g1 = "[\<lparr>transcript_id = ''T2'', gene_id = ''G1''\<rparr>, \<lparr>transcript_id = ''T1'', gene_id = ''G1''\<rparr>]"
  let ?g2 = "[\<lparr>transcript_id = ''T2'', gene_id = ''G1''\<rparr>, \<lparr>transcript_id = ''T3'', gene_id = ''G2''\<rparr>]"
  let ?h1 = "[\<lparr>transcript_id = ''T1'', gene_id = ''G1''\<rparr>]"
  let ?h2 = "[\<lparr>transcript_id = ''T1'', gene_id = ''G2''\<rparr>]"
  let ?fmt = "\<lambda>(t, g). t @ [CHR 0x09] @ g @ [CHR 0x0A]"
  have nc: "\<not> conflicting (entries_read True ?g1 ?g2)"
    by (simp add: conflicting_def entries_read_def)
  have c: "conflicting (entries_read True ?h1 ?h2)"
    by (simp add: conflicting_def entries_read_def)
  note ok = getTranscript2GeneMap_raises_iff_conflicting[of True ?g1 ?g2,
      THEN conjunct2, THEN mp, OF nc]
  then obtain d where d: "getTranscript2GeneMap True ?g1 ?g2 =
      Inr ((''transcript_id'' @ [CHR 0x09] @ ''gene_id'' @ [CHR 0x0A]) # map ?fmt d)"
    "distinct (map fst d)"
    "fst ` set d = transcript_id ` set (entries_read True ?g1 ?g2)"
    "\<forall>e \<in> set (entries_read True ?g1 ?g2).
        map_of d (transcript_id e) = Some (gene_id e)
        \<and> transcript_id e @ [CHR 0x09] @ gene_id e @ [CHR 0x0A] \<in> set (map ?fmt d)"
    by (elim exE conjE)
  from d(3) have keys: "fst ` set d = {''T1'', ''T2'', ''T3''}"
    by (simp add: entries_read_def insert_commute)
  from d(4) have vals: "map_of d ''T1'' = Some ''G1''" "map_of d ''T2'' = Some ''G1''"
    "map_of d ''T3'' = Some ''G2''"
    by (simp_all add: entries_read_def)
  from d(4) have line: "''T3'' @ [CHR 0x09] @ ''G2'' @ [CHR 0x0A] \<in> set (map ?fmt d)"
    by (simp add: entries_read_def)
  have Q: "\<exists>d. getTranscript2GeneMap True ?g1 ?g2 =
          Inr ((''transcript_id'' @ [CHR 0x09] @ ''gene_id'' @ [CHR 0x0A]) # map ?fmt d)
        \<and> distinct (map fst d)
        \<and> fst ` set d = {''T1'', ''T2'', ''T3''}
        \<and> map_of d ''T1'' = Some ''G1'' \<and> map_of d ''T2'' = Some ''G1''
        \<and> map_of d ''T3'' = Some ''G2''
        \<and> ''T3'' @ [CHR 0x09] @ ''G2'' @ [CHR 0x0A] \<in> set (map ?fmt d)"
    by (rule exI[of _ d]) (intro conjI d(1) d(2) keys vals line)
  have written: "getTranscript2GeneMap True ?g1 ?g2
       = Inr [''transcript_id'' @ [CHR 0x09] @ ''gene_id'' @ [CHR 0x0A],
              ''T1'' @ [CHR 0x09] @ ''G1'' @ [CHR 0x0A],
              ''T2'' @ [CHR 0x09] @ ''G1'' @ [CHR 0x0A],
              ''T3'' @ [CHR 0x09] @ ''G2'' @ [CHR 0x0A]]"
    by (simp add: getTranscript2GeneMap_def write_outfile_def header_line_def map_line_def)
  note R = getTranscript2GeneMap_raises_iff_conflicting[of True ?h1 ?h2,
      THEN conjunct1, THEN iffD2, OF c]
  show ?thesis
    by (intro conjI nc Q written c R)
qed

subsection \<open>What the function writes\<close>

text \<open>
  Claim C9. Whenever \<^verbatim>\<open>getTranscript2GeneMap\<close> writes its file, the file is the header
  line \<^verbatim>\<open>transcript_id<TAB>gene_id<LF>\<close> followed, for each item of the sorted
  list of the set of (transcript_id, gene_id) pairs read, by the line made of the
  transcript_id, a tab, the gene_id and a line feed; and that list is strictly
  ascending in transcript_id. So the file depends on the set of pairs only: any other
  run that writes a file from the same set of pairs, in whatever order and however
  split over the two genesets, writes the same file.
\<close>

theorem getTranscript2GeneMap_output_sorted:
  "getTranscript2GeneMap m g1 g2 = Inr out \<Longrightarrow>
     out = (''transcript_id'' @ [CHR 0x09] @ ''gene_id'' @ [CHR 0x0A])
           # map (\<lambda>(t, g). t @ [CHR 0x09] @ g @ [CHR 0x0A])
               (sorted_list_of_set (pairs_of (entries_read m g1 g2)))
     \<and> sorted_wrt (<) (map fst (sorted_list_of_set (pairs_of (entries_read m g1 g2))))
     \<and> (\<forall>m' h1 h2 out'.
           getTranscript2GeneMap m' h1 h2 = Inr out'
           \<and> pairs_of (entries_read m' h1 h2) = pairs_of (entries_read m g1 g2)
           \<longrightarrow> out' = out)"
proof -
  let ?hdr = "''transcript_id'' @ [CHR 0x09] @ ''gene_id'' @ [CHR 0x0A]"
  let ?fmt = "\<lambda>(t, g). t @ [CHR 0x09] @ g @ [CHR 0x0A]"
  have key: "out = ?hdr # map ?fmt (sorted_list_of_set (pairs_of (entries_read m g1 g2)))
     \<and> sorted_wrt (<) (map fst (sorted_list_of_set (pairs_of (entries_read m g1 g2))))"
    if "getTranscript2GeneMap m g1 g2 = Inr out" for m g1 g2 out
  proof -
    from that getTranscript2GeneMap_cases[of m g1 g2]
    obtain d where out: "out = write_outfile d" and dist: "distinct (map fst d)"
      and set: "set d = pairs_of (entries_read m g1 g2)"
      by auto
    note sd = sort_distinct_keys[OF dist, unfolded set]
    have eq: "sort d = sorted_list_of_set (pairs_of (entries_read m g1 g2))"
      by (rule sd[THEN conjunct1])
    have "out = ?hdr # map ?fmt (sort d)"
      unfolding out by (rule write_outfile_text)
    moreover have "sorted_wrt (<) (map fst (sort d))"
      by (rule sd[THEN conjunct2])
    ultimately show ?thesis
      unfolding eq by (rule conjI)
  qed
  assume a: "getTranscript2GeneMap m g1 g2 = Inr out"
  show ?thesis
  proof (intro conjI allI impI)
    show "out = ?hdr # map ?fmt (sorted_list_of_set (pairs_of (entries_read m g1 g2)))"
      by (rule key[OF a, THEN conjunct1])
    show "sorted_wrt (<) (map fst (sorted_list_of_set (pairs_of (entries_read m g1 g2))))"
      by (rule key[OF a, THEN conjunct2])
  next
    fix m' h1 h2 out'
    assume b: "getTranscript2GeneMap m' h1 h2 = Inr out'
        \<and> pairs_of (entries_read m' h1 h2) = pairs_of (entries_read m g1 g2)"
    note k = key[OF a, THEN conjunct1]
    note k' = key[OF b[THEN conjunct1], THEN conjunct1, unfolded b[THEN conjunct2]]
    show "out' = out"
      unfolding k k' by (rule refl)
  qed
qed

text \<open>
  The theorem at a geneset that lists T2 before T1, and the same file from a run that
  reads the pairs in another order, over two genesets.
\<close>

theorem getTranscript2GeneMap_output_sorted_witness:
  "getTranscript2GeneMap False
      [\<lparr>transcript_id = ''T2'', gene_id = ''G1''\<rparr>, \<lparr>transcript_id = ''T1'', gene_id = ''G1''\<rparr>] []
     = Inr [''transcript_id'' @ [CHR 0x09] @ ''gene_id'' @ [CHR 0x0A],
            ''T1'' @ [CHR 0x09] @ ''G1'' @ [CHR 0x0A],
            ''T2'' @ [CHR 0x09] @ ''G1'' @ [CHR 0x0A]]
   \<and> [''transcript_id'' @ [CHR 0x09] @ ''gene_id'' @ [CHR 0x0A],
       ''T1'' @ [CHR 0x09] @ ''G1'' @ [CHR 0x0A],
       ''T2'' @ [CHR 0x09] @ ''G1'' @ [CHR 0x0A]]
     = (''transcript_id'' @ [CHR 0x09] @ ''gene_id'' @ [CHR 0x0A])
       # map (\<lambda>(t, g). t @ [CHR 0x09] @ g @ [CHR 0x0A])
           (sorted_list_of_set (pairs_of (entries_read False
             [\<lparr>transcript_id = ''T2'', gene_id = ''G1''\<rparr>, \<lparr>transcript_id = ''T1'', gene_id = ''G1''\<rparr>] [])))
   \<and> getTranscript2GeneMap True
      [\<lparr>transcript_id = ''T1'', gene_id = ''G1''\<rparr>]
      [\<lparr>transcript_id = ''T2'', gene_id = ''G1''\<rparr>, \<lparr>transcript_id = ''T1'', gene_id = ''G1''\<rparr>]
     = Inr [''transcript_id'' @ [CHR 0x09] @ ''gene_id'' @ [CHR 0x0A],
            ''T1'' @ [CHR 0x09] @ ''G1'' @ [CHR 0x0A],
            ''T2'' @ [CHR 0x09] @ ''G1'' @ [CHR 0x0A]]"
proof -
  have h: "getTranscript2GeneMap False
      [\<lparr>transcript_id = ''T2'', gene_id = ''G1''\<rparr>, \<lparr>transcript_id = ''T1'', gene_id = ''G1''\<rparr>] []
     = Inr [''transcript_id'' @ [CHR 0x09] @ ''gene_id'' @ [CHR 0x0A],
            ''T1'' @ [CHR 0x09] @ ''G1'' @ [CHR 0x0A],
            ''T2'' @ [CHR 0x09] @ ''G1'' @ [CHR 0x0A]]"
    by (simp add: getTranscript2GeneMap_def write_outfile_def header_line_def map_line_def)
  have h': "getTranscript2GeneMap True
      [\<lparr>transcript_id = ''T1'', gene_id = ''G1''\<rparr>]
      [\<lparr>transcript_id = ''T2'', gene_id = ''G1''\<rparr>, \<lparr>transcript_id = ''T1'', gene_id = ''G1''\<rparr>]
     = Inr [''transcript_id'' @ [CHR 0x09] @ ''gene_id'' @ [CHR 0x0A],
            ''T1'' @ [CHR 0x09] @ ''G1'' @ [CHR 0x0A],
            ''T2'' @ [CHR 0x09] @ ''G1'' @ [CHR 0x0A]]"
    by (simp add: getTranscript2GeneMap_def write_outfile_def header_line_def map_line_def)
  note t = getTranscript2GeneMap_output_sorted[OF h, THEN conjunct1]
  show ?thesis
    by (intro conjI h t h')
qed

section \<open>Properties of the modelled quantification core\<close>

subsection \<open>The Barcode Corrector\<close>

lemma best_supported_mem: "best_supported s v ws \<in> set (v # ws)"
  by (induction ws arbitrary: v) (auto split: if_splits)

lemma dominating_variants_iff:
  "v \<in> set (dominating_variants m A ts b) \<longleftrightarrow>
     v \<in> set (substitutions A b) \<and> v \<in> set (observed_barcodes ts)
     \<and> total_multiplicity ts b < total_multiplicity ts v
     \<and> m * of_nat (total_multiplicity ts b) \<le> of_nat (total_multiplicity ts v)"
  by (simp add: dominating_variants_def)

lemma canonical_cases:
  "canonical m A ts b = b \<or> canonical m A ts b \<in> set (dominating_variants m A ts b)"
proof (cases "dominating_variants m A ts b")
  case Nil
  then show ?thesis by (simp add: canonical_def)
next
  case (Cons v vs)
  with best_supported_mem[of "total_multiplicity ts" v vs] show ?thesis
    by (simp add: canonical_def)
qed

lemma canonical_merge:
  assumes "canonical m A ts b \<noteq> b"
  shows "canonical m A ts b \<in> set (substitutions A b)"
    and "canonical m A ts b \<in> set (observed_barcodes ts)"
    and "total_multiplicity ts b < total_multiplicity ts (canonical m A ts b)"
    and "m * of_nat (total_multiplicity ts b) \<le> of_nat (total_multiplicity ts (canonical m A ts b))"
  using canonical_cases[of m A ts b] assms by (simp_all add: dominating_variants_iff)

lemma canonical_unobserved_variants:
  assumes "\<And>v. v \<in> set (observed_barcodes ts) \<Longrightarrow>
             \<not> (total_multiplicity ts b < total_multiplicity ts v
                \<and> m * of_nat (total_multiplicity ts b) \<le> of_nat (total_multiplicity ts v))"
  shows "canonical m A ts b = b"
proof (rule ccontr)
  assume "canonical m A ts b \<noteq> b"
  from canonical_merge[OF this] assms show False by blast
qed

text \<open>
  A generated variant has the length of the barcode and differs from it at exactly one
  position, where it holds a character of the alphabet.
\<close>

lemma substitutions_single:
  assumes "v \<in> set (substitutions A b)"
  shows "length v = length b \<and>
         (\<exists>i<length b. v ! i \<in> set A \<and> v ! i \<noteq> b ! i
            \<and> (\<forall>j<length b. j \<noteq> i \<longrightarrow> v ! j = b ! j))"
proof -
  from assms obtain i c where i: "i < length b" and c: "c \<in> set A" "c \<noteq> b ! i"
    and v: "v = b[i := c]"
    by (auto simp: substitutions_def)
  then show ?thesis by (auto intro!: exI[of _ i])
qed

text \<open>
  Claim C2. For every multiplier, alphabet and set of observed tuples: a barcode that
  the Corrector merges goes to an observed single-substitution variant whose total
  multiplicity is at least the multiplier times the barcode's own, and strictly
  greater; so it is never merged into a barcode whose total is below the multiplier
  times its own, and two barcodes whose totals are equal, or each below the
  multiplier times the other, are not merged into one another.
\<close>

theorem canonical_respects_multiplier:
  "(canonical m A ts b \<noteq> b \<longrightarrow>
       canonical m A ts b \<in> set (substitutions A b)
     \<and> canonical m A ts b \<in> set (observed_barcodes ts)
     \<and> m * of_nat (total_multiplicity ts b) \<le> of_nat (total_multiplicity ts (canonical m A ts b))
     \<and> total_multiplicity ts b < total_multiplicity ts (canonical m A ts b))
   \<and> (v \<noteq> b \<and> of_nat (total_multiplicity ts v) < m * of_nat (total_multiplicity ts b)
        \<longrightarrow> canonical m A ts b \<noteq> v)
   \<and> (v \<noteq> b \<and> of_nat (total_multiplicity ts v) < m * of_nat (total_multiplicity ts b)
        \<and> of_nat (total_multiplicity ts b) < m * of_nat (total_multiplicity ts v)
        \<longrightarrow> canonical m A ts b \<noteq> v \<and> canonical m A ts v \<noteq> b)
   \<and> (v \<noteq> b \<and> total_multiplicity ts v = total_multiplicity ts b
        \<longrightarrow> canonical m A ts b \<noteq> v \<and> canonical m A ts v \<noteq> b)"
proof (intro conjI impI)
  assume "canonical m A ts b \<noteq> b"
  from canonical_merge[OF this]
  show "canonical m A ts b \<in> set (substitutions A b)"
    and "canonical m A ts b \<in> set (observed_barcodes ts)"
    and "m * of_nat (total_multiplicity ts b) \<le> of_nat (total_multiplicity ts (canonical m A ts b))"
    and "total_multiplicity ts b < total_multiplicity ts (canonical m A ts b)"
    by simp_all
next
  assume a: "v \<noteq> b \<and> of_nat (total_multiplicity ts v) < m * of_nat (total_multiplicity ts b)"
  show "canonical m A ts b \<noteq> v"
  proof
    assume e: "canonical m A ts b = v"
    with a have "canonical m A ts b \<noteq> b" by simp
    from canonical_merge(4)[OF this] e a show False by simp
  qed
next
  assume a: "v \<noteq> b \<and> of_nat (total_multiplicity ts v) < m * of_nat (total_multiplicity ts b)
        \<and> of_nat (total_multiplicity ts b) < m * of_nat (total_multiplicity ts v)"
  show "canonical m A ts b \<noteq> v"
  proof
    assume e: "canonical m A ts b = v"
    with a have "canonical m A ts b \<noteq> b" by simp
    from canonical_merge(4)[OF this] e a show False by simp
  qed
  show "canonical m A ts v \<noteq> b"
  proof
    assume e: "canonical m A ts v = b"
    with a have "canonical m A ts v \<noteq> v" by auto
    from canonical_merge(4)[OF this] e a show False by simp
  qed
next
  assume a: "v \<noteq> b \<and> total_multiplicity ts v = total_multiplicity ts b"
  show "canonical m A ts b \<noteq> v"
  proof
    assume e: "canonical m A ts b = v"
    with a have "canonical m A ts b \<noteq> b" by simp
    from canonical_merge(3)[OF this] e a show False by simp
  qed
  show "canonical m A ts v \<noteq> b"
  proof
    assume e: "canonical m A ts v = b"
    with a have "canonical m A ts v \<noteq> v" by auto
    from canonical_merge(3)[OF this] e a show False by simp
  qed
qed

text \<open>
  The theorem at the default multiplier over the nucleotides: AAT with one read is merged into
  AAA with ten reads, AAA is not merged into AAT, and AAT is not merged into AAA when
  both have one read or when AAA has three.
\<close>

theorem canonical_respects_multiplier_witness:
  "canonical default_multiplier ''ACGT''
      [\<lparr>barcode = ''AAA'', umi = ''U1'', equivalence_class = 0, multiplicity = 10, genes = [''geneX'']\<rparr>,
       \<lparr>barcode = ''AAT'', umi = ''U2'', equivalence_class = 0, multiplicity = 1, genes = [''geneX'']\<rparr>]
      ''AAT'' = ''AAA''
   \<and> default_multiplier * of_nat (total_multiplicity
      [\<lparr>barcode = ''AAA'', umi = ''U1'', equivalence_class = 0, multiplicity = 10, genes = [''geneX'']\<rparr>,
       \<lparr>barcode = ''AAT'', umi = ''U2'', equivalence_class = 0, multiplicity = 1, genes = [''geneX'']\<rparr>]
      ''AAT'')
     \<le> of_nat (total_multiplicity
      [\<lparr>barcode = ''AAA'', umi = ''U1'', equivalence_class = 0, multiplicity = 10, genes = [''geneX'']\<rparr>,
       \<lparr>barcode = ''AAT'', umi = ''U2'', equivalence_class = 0, multiplicity = 1, genes = [''geneX'']\<rparr>]
      ''AAA'')
   \<and> canonical default_multiplier ''ACGT''
      [\<lparr>barcode = ''AAA'', umi = ''U1'', equivalence_class = 0, multiplicity = 10, genes = [''geneX'']\<rparr>,
       \<lparr>barcode = ''AAT'', umi = ''U2'', equivalence_class = 0, multiplicity = 1, genes = [''geneX'']\<rparr>]
      ''AAA'' \<noteq> ''AAT''
   \<and> canonical default_multiplier ''ACGT''
      [\<lparr>barcode = ''AAA'', umi = ''U1'', equivalence_class = 0, multiplicity = 1, genes = [''geneX'']\<rparr>,
       \<lparr>barcode = ''AAT'', umi = ''U2'', equivalence_class = 0, multiplicity = 1, genes = [''geneX'']\<rparr>]
      ''AAT'' \<noteq> ''AAA''
   \<and> canonical default_multiplier ''ACGT''
      [\<lparr>barcode = ''AAA'', umi = ''U1'', equivalence_class = 0, multiplicity = 3, genes = [''geneX'']\<rparr>,
       \<lparr>barcode = ''AAT'', umi = ''U2'', equivalence_class = 0, multiplicity = 1, genes = [''geneX'']\<rparr>]
      ''AAT'' \<noteq> ''AAA''"
proof -
  let ?ts = "[\<lparr>barcode = ''AAA'', umi = ''U1'', equivalence_class = 0, multiplicity = 10, genes = [''geneX'']\<rparr>,
       \<lparr>barcode = ''AAT'', umi = ''U2'', equivalence_class = 0, multiplicity = 1, genes = [''geneX'']\<rparr>]"
  let ?tie = "[\<lparr>barcode = ''AAA'', umi = ''U1'', equivalence_class = 0, multiplicity = 1, genes = [''geneX'']\<rparr>,
       \<lparr>barcode = ''AAT'', umi = ''U2'', equivalence_class = 0, multiplicity = 1, genes = [''geneX'']\<rparr>]"
  let ?cmp = "[\<lparr>barcode = ''AAA'', umi = ''U1'', equivalence_class = 0, multiplicity = 3, genes = [''geneX'']\<rparr>,
       \<lparr>barcode = ''AAT'', umi = ''U2'', equivalence_class = 0, multiplicity = 1, genes = [''geneX'']\<rparr>]"
  have merged: "canonical default_multiplier ''ACGT'' ?ts ''AAT'' = ''AAA''"
    by (simp add: canonical_def dominating_variants_def substitutions_def observed_barcodes_def
        total_multiplicity_def default_multiplier_def)
  then have ne: "canonical default_multiplier ''ACGT'' ?ts ''AAT'' \<noteq> ''AAT''" by simp
  have low: "''AAT'' \<noteq> ''AAA'' \<and> of_nat (total_multiplicity ?ts ''AAT'')
      < default_multiplier * of_nat (total_multiplicity ?ts ''AAA'')"
    by (simp add: total_multiplicity_def default_multiplier_def)
  have tie: "''AAA'' \<noteq> ''AAT'' \<and> total_multiplicity ?tie ''AAA'' = total_multiplicity ?tie ''AAT''"
    by (simp add: total_multiplicity_def)
  have cmp: "''AAA'' \<noteq> ''AAT''
      \<and> of_nat (total_multiplicity ?cmp ''AAA'') < default_multiplier * of_nat (total_multiplicity ?cmp ''AAT'')
      \<and> of_nat (total_multiplicity ?cmp ''AAT'') < default_multiplier * of_nat (total_multiplicity ?cmp ''AAA'')"
    by (simp add: total_multiplicity_def default_multiplier_def)
  note a = canonical_respects_multiplier[of default_multiplier "''ACGT''" ?ts "''AAT''",
      THEN conjunct1, THEN mp, OF ne,
      THEN conjunct2, THEN conjunct2, THEN conjunct1, unfolded merged]
  note b = canonical_respects_multiplier[of default_multiplier "''ACGT''" ?ts "''AAA''" "''AAT''",
      THEN conjunct2, THEN conjunct1, THEN mp, OF low]
  note c = canonical_respects_multiplier[of default_multiplier "''ACGT''" ?tie "''AAT''" "''AAA''",
      THEN conjunct2, THEN conjunct2, THEN conjunct2, THEN mp, OF tie, THEN conjunct1]
  note d = canonical_respects_multiplier[of default_multiplier "''ACGT''" ?cmp "''AAT''" "''AAA''",
      THEN conjunct2, THEN conjunct2, THEN conjunct1, THEN mp, OF cmp, THEN conjunct1]
  show ?thesis
    by (intro conjI merged a b c d)
qed

subsection \<open>The four-record scenario\<close>

lemma scenario_tuples:
  "resolved_tuples scenario_class_genes scenario_records =
     [\<lparr>barcode = ''AAA'', umi = ''U1'', equivalence_class = 0, multiplicity = 1, genes = [''geneX'']\<rparr>,
      \<lparr>barcode = ''AAA'', umi = ''U1'', equivalence_class = 0, multiplicity = 1, genes = [''geneX'']\<rparr>,
      \<lparr>barcode = ''AAA'', umi = ''U2'', equivalence_class = 0, multiplicity = 1, genes = [''geneX'']\<rparr>,
      \<lparr>barcode = ''AAT'', umi = ''U3'', equivalence_class = 0, multiplicity = 1, genes = [''geneX'']\<rparr>]"
  by (simp add: resolved_tuples_def scenario_class_genes_def scenario_records_def resolve_def
      List.map_filter_simps)

lemma scenario_observed:
  "observed_barcodes (resolved_tuples scenario_class_genes scenario_records) = [''AAA'', ''AAT'']"
  by (simp add: scenario_tuples observed_barcodes_def)

lemma scenario_totals:
  "total_multiplicity (resolved_tuples scenario_class_genes scenario_records) ''AAA'' = 3"
  "total_multiplicity (resolved_tuples scenario_class_genes scenario_records) ''AAT'' = 1"
  by (simp_all add: scenario_tuples total_multiplicity_def)

lemma scenario_no_merge:
  "canonical 10 A (resolved_tuples scenario_class_genes scenario_records) ''AAA'' = ''AAA''"
  "canonical 10 A (resolved_tuples scenario_class_genes scenario_records) ''AAT'' = ''AAT''"
  by (rule canonical_unobserved_variants, simp add: scenario_observed, auto simp: scenario_totals)+

text \<open>
  Claim C7. On the four records with class0 mapped to {geneX} and multiplier 10,
  whatever the alphabet and the other settings: the observed barcodes are AAA with
  total multiplicity 3 and AAT with total 1, the correction map leaves both as they
  are, and the aggregate holds exactly the counts 2 for (AAA, geneX) and 1 for
  (AAT, geneX); no group and no record is dropped.
\<close>

theorem scenario_aggregate:
  "observed_barcodes (resolved_tuples scenario_class_genes scenario_records) = [''AAA'', ''AAT'']
   \<and> total_multiplicity (resolved_tuples scenario_class_genes scenario_records) ''AAA'' = 3
   \<and> total_multiplicity (resolved_tuples scenario_class_genes scenario_records) ''AAT'' = 1
   \<and> map (correction_map
             \<lparr>expected_cell_count = e, barcode_correction_multiplier = 10,
              multi_gene_policy = p, thread_count = n\<rparr> A
             (resolved_tuples scenario_class_genes scenario_records)) [''AAA'', ''AAT'']
       = [''AAA'', ''AAT'']
   \<and> counts (quantify
             \<lparr>expected_cell_count = e, barcode_correction_multiplier = 10,
              multi_gene_policy = p, thread_count = n\<rparr> A
             scenario_class_genes scenario_records)
       = [(''AAA'', ''geneX'') \<mapsto> 2, (''AAT'', ''geneX'') \<mapsto> 1]
   \<and> dropped_ambiguous_umi (quantify
             \<lparr>expected_cell_count = e, barcode_correction_multiplier = 10,
              multi_gene_policy = p, thread_count = n\<rparr> A
             scenario_class_genes scenario_records) = 0
   \<and> dropped_unmapped_class scenario_class_genes scenario_records = 0"
proof -
  let ?cfg = "\<lparr>expected_cell_count = e, barcode_correction_multiplier = 10,
              multi_gene_policy = p, thread_count = n\<rparr>"
  let ?ts = "resolved_tuples scenario_class_genes scenario_records"
  have canon: "correction_map ?cfg A ?ts ''AAA'' = ''AAA''"
    "correction_map ?cfg A ?ts ''AAT'' = ''AAT''"
    by (simp_all add: correction_map_def scenario_no_merge)
  have same: "map (relabel (correction_map ?cfg A ?ts)) ?ts = ?ts"
    unfolding scenario_tuples[symmetric]
    by (subst (2 3) scenario_tuples) (simp add: relabel_def canon)
  have agg: "aggregate p ?ts =
      \<lparr>counts = [(''AAA'', ''geneX'') \<mapsto> 2, (''AAT'', ''geneX'') \<mapsto> 1],
       dropped_ambiguous_umi = 0\<rparr>"
    by (simp add: scenario_tuples aggregate_def group_keys_def aggregate_group_def
        group_gene_sets_def resolve_group_def add_count_def)
  have q: "quantify ?cfg A scenario_class_genes scenario_records = aggregate p ?ts"
    by (simp add: quantify_def Let_def same)
  have d: "dropped_unmapped_class scenario_class_genes scenario_records = 0"
    by (simp add: dropped_unmapped_class_def scenario_class_genes_def scenario_records_def
        resolve_def)
  show ?thesis
    by (simp add: scenario_observed scenario_totals canon q agg d)
qed

end
